theory Spec2Isabelle
  imports Complex_Main
begin

section \<open>Numbers\<close>

text \<open>
  The component computes with JavaScript numbers. Finite numbers are modelled as
  \<^typ>\<open>real\<close>, and arithmetic on them is exact, except for the numbers that
  \<open>toFixed\<close> prints, where the rounding of IEEE doubles decides which digits appear
  (see \<open>fl\<close> below). The props, the pointer coordinates, the media element's
  \<open>currentTime\<close> and the results of \<open>getTotalLength\<close> and \<open>getPointAtLength\<close> are
  taken to be finite. Numbers that need not be finite are modelled with \<open>jsnum\<close>: the
  media element's \<open>duration\<close> (\<open>NaN\<close> before the metadata has loaded, \<open>Infinity\<close> for
  a stream without an end), the initial value \<open>Number.POSITIVE_INFINITY\<close> of
  \<open>bestDist2\<close>, and what \<open>seekFromHover\<close> computes from the unguarded division
  \<open>hoverLen / pathLen\<close>.
\<close>

datatype jsnum = Fin real | PosInf | NegInf | NaN

text \<open>\<open>a < b\<close> for a finite \<open>a\<close>; every comparison with \<open>NaN\<close> is false.\<close>

fun js_lt :: "real \<Rightarrow> jsnum \<Rightarrow> bool" where
  "js_lt a (Fin b) = (a < b)"
| "js_lt a PosInf = True"
| "js_lt a NegInf = False"
| "js_lt a NaN = False"

text \<open>\<open>a <= b\<close> for a finite \<open>b\<close>.\<close>

fun js_le :: "jsnum \<Rightarrow> real \<Rightarrow> bool" where
  "js_le (Fin a) b = (a \<le> b)"
| "js_le PosInf b = False"
| "js_le NegInf b = True"
| "js_le NaN b = False"

text \<open>\<open>Math.sqrt\<close>: \<open>NaN\<close> on a negative argument.\<close>

fun Math_sqrt :: "jsnum \<Rightarrow> jsnum" where
  "Math_sqrt (Fin a) = (if a < 0 then NaN else Fin (sqrt a))"
| "Math_sqrt PosInf = PosInf"
| "Math_sqrt NegInf = NaN"
| "Math_sqrt NaN = NaN"

text \<open>
  \<open>a / b\<close> for finite \<open>a\<close> and \<open>b\<close> (the zero divisor is \<open>+0\<close>):
  \<open>0 / 0\<close> is \<open>NaN\<close>, any other \<open>a / 0\<close> is an infinity with the sign of \<open>a\<close>.
\<close>

fun js_div :: "real \<Rightarrow> real \<Rightarrow> jsnum" where
  "js_div a b =
     (if b \<noteq> 0 then Fin (a / b)
      else if a = 0 then NaN
      else if 0 < a then PosInf
      else NegInf)"

text \<open>
  \<open>!a\<close> holds of 0 and \<open>NaN\<close>; \<open>a || 0\<close> is 0 for these and \<open>a\<close> otherwise;
  \<open>a > 0\<close>.
\<close>

fun js_falsy :: "jsnum \<Rightarrow> bool" where
  "js_falsy (Fin a) = (a = 0)"
| "js_falsy PosInf = False"
| "js_falsy NegInf = False"
| "js_falsy NaN = True"

definition js_or_zero :: "jsnum \<Rightarrow> jsnum" where
  "js_or_zero a = (if js_falsy a then Fin 0 else a)"

fun js_gt_zero :: "jsnum \<Rightarrow> bool" where
  "js_gt_zero (Fin a) = (0 < a)"
| "js_gt_zero PosInf = True"
| "js_gt_zero NegInf = False"
| "js_gt_zero NaN = False"

text \<open>
  \<open>a * b\<close>: \<open>NaN\<close> if a factor is \<open>NaN\<close> or the factors are 0 and an infinity;
  otherwise a product with an infinite factor is the infinity with the product of the
  signs.
\<close>

fun js_sgn :: "jsnum \<Rightarrow> real" where
  "js_sgn (Fin a) = sgn a"
| "js_sgn PosInf = 1"
| "js_sgn NegInf = - 1"
| "js_sgn NaN = 0"

fun js_mul :: "jsnum \<Rightarrow> jsnum \<Rightarrow> jsnum" where
  "js_mul (Fin a) (Fin b) = Fin (a * b)"
| "js_mul NaN b = NaN"
| "js_mul a NaN = NaN"
| "js_mul a b =
     (if js_sgn a * js_sgn b = 0 then NaN
      else if 0 < js_sgn a * js_sgn b then PosInf
      else NegInf)"

text \<open>\<open>a - b\<close> for a finite \<open>b\<close>.\<close>

fun js_sub :: "jsnum \<Rightarrow> real \<Rightarrow> jsnum" where
  "js_sub (Fin a) b = Fin (a - b)"
| "js_sub PosInf b = PosInf"
| "js_sub NegInf b = NegInf"
| "js_sub NaN b = NaN"

text \<open>
  \<open>Math.min(a, b)\<close>, and \<open>Math.max(a, b)\<close> for a finite \<open>a\<close>: \<open>NaN\<close> if an argument
  is \<open>NaN\<close>.
\<close>

fun Math_min :: "jsnum \<Rightarrow> jsnum \<Rightarrow> jsnum" where
  "Math_min (Fin a) (Fin b) = Fin (min a b)"
| "Math_min NaN b = NaN"
| "Math_min a NaN = NaN"
| "Math_min NegInf b = NegInf"
| "Math_min a NegInf = NegInf"
| "Math_min PosInf b = b"
| "Math_min a PosInf = a"

fun Math_max :: "real \<Rightarrow> jsnum \<Rightarrow> jsnum" where
  "Math_max a (Fin b) = Fin (max a b)"
| "Math_max a PosInf = PosInf"
| "Math_max a NegInf = Fin a"
| "Math_max a NaN = NaN"

text \<open>
  \<open>x.toFixed(2)\<close>, as the number its result denotes: the sign is split off, and of
  the integers \<open>n\<close> with \<open>n / 100\<close> nearest to \<open>|x|\<close> the larger one is taken; from
  \<open>10^21\<close> on the number is printed in full.
\<close>

definition toFixed2 :: "real \<Rightarrow> real" where
  "toFixed2 x =
     (let a = (if x < 0 then - x else x);
          v = (if 10 ^ 21 \<le> a then a else of_int \<lfloor>a * 100 + 1 / 2\<rfloor> / 100)
      in if x < 0 then - v else v)"

text \<open>
  The double nearest to a real number (IEEE 754 binary64, round to nearest, ties to
  even): for \<open>2^e \<le> |x| < 2^(e+1)\<close> the doubles are the multiples of \<open>2^(e-52)\<close>, and
  below \<open>2^(-1022)\<close> the multiples of \<open>2^(-1074)\<close>. Overflow to an infinity (from
  about \<open>1.8 * 10^308\<close>) is not modelled.
\<close>

definition round_even :: "real \<Rightarrow> int" where
  "round_even m =
     (let f = \<lfloor>m\<rfloor>;
          r = m - of_int f
      in if r < 1 / 2 then f
         else if 1 / 2 < r then f + 1
         else if even f then f
         else f + 1)"

definition fl :: "real \<Rightarrow> real" where
  "fl x =
     (if x = 0 then 0
      else
        (let e = max \<lfloor>log 2 \<bar>x\<bar>\<rfloor> (- 1022);
             q = 2 powr (of_int e - 52)
         in sgn x * (of_int (round_even (\<bar>x\<bar> / q)) * q)))"

section \<open>Data model\<close>

text \<open>The props of \<open>VideoPlayer\<close> that the geometry uses, with their defaults.\<close>

record props =
  size_prop :: real
  radius :: real
  barWidth :: real

definition default_props :: props where
  "default_props = \<lparr>size_prop = 360, radius = 50, barWidth = 24\<rparr>"

record point =
  pt_x :: real
  pt_y :: real

text \<open>
  The rendered \<open>SVGPathElement\<close> behind \<open>pathRef\<close>: the browser's geometry queries
  are parameters of the model.
\<close>

record path_el =
  getTotalLength :: real
  getPointAtLength :: "real \<Rightarrow> point"

text \<open>
  The \<open>HTMLVideoElement\<close> behind \<open>videoRef\<close>. \<open>play()\<close> clears \<open>v_paused\<close>; a
  rejected \<open>play()\<close> is swallowed by the code and not modelled.
\<close>

record video =
  v_duration :: jsnum
  v_currentTime :: real
  v_paused :: bool

text \<open>The component's state hooks and the targets of its two refs.\<close>

record state =
  videoRef :: "video option"
  pathRef :: "path_el option"
  isPlaying :: bool
  duration :: jsnum
  current :: real
  hoverLen :: "real option"
  pathLen :: real

definition initial_state :: state where
  "initial_state =
     \<lparr>videoRef = None, pathRef = None, isPlaying = False, duration = Fin 0, current = 0,
      hoverLen = None, pathLen = 1\<rparr>"

text \<open>
  A pointer event, with the bounding rectangle of the closest \<open>svg\<close> element of its
  target.
\<close>

record pointer_event =
  clientX :: real
  clientY :: real
  rect_left :: real
  rect_top :: real

datatype error = TypeError

section \<open>The path\<close>

text \<open>
  The commands of the path description. The source joins their texts into one
  string; the model keeps the list of commands. \<open>A rx ry rot large sweep x y\<close> is the
  elliptical arc to \<open>(x, y)\<close>.
\<close>

datatype cmd =
  M real real
| L real real
| A real real real bool bool real real

definition pad :: "props \<Rightarrow> real" where
  "pad pr = of_int \<lceil>barWidth pr / 2\<rceil> + 2"

definition d_path :: "props \<Rightarrow> cmd list" where
  "d_path pr =
     (let sv = size_prop pr;
          w = sv - pad pr * 2;
          h = sv - pad pr * 2;
          r = min (radius pr) (min (w / 2) (h / 2));
          x0 = pad pr + w / 2;
          y0 = pad pr
      in [M x0 y0,
          L (pad pr + w - r) y0,
          A r r 0 False True (pad pr + w) (pad pr + r),
          L (pad pr + w) (pad pr + h - r),
          A r r 0 False True (pad pr + w - r) (pad pr + h),
          L (pad pr + r) (pad pr + h),
          A r r 0 False True (pad pr) (pad pr + h - r),
          L (pad pr) (pad pr + r),
          A r r 0 False True (pad pr + r) (pad pr),
          L x0 y0])"

text \<open>The point a command moves to, and the radii of an arc.\<close>

fun cmd_point :: "cmd \<Rightarrow> real \<times> real" where
  "cmd_point (M x y) = (x, y)"
| "cmd_point (L x y) = (x, y)"
| "cmd_point (A rx ry rot large sweep x y) = (x, y)"

fun cmd_radii :: "cmd \<Rightarrow> (real \<times> real) option" where
  "cmd_radii (A rx ry rot large sweep x y) = Some (rx, ry)"
| "cmd_radii (M x y) = None"
| "cmd_radii (L x y) = None"

definition in_box :: "real \<Rightarrow> real \<times> real \<Rightarrow> bool" where
  "in_box sz q = (0 \<le> fst q \<and> fst q \<le> sz \<and> 0 \<le> snd q \<and> snd q \<le> sz)"

text \<open>Every point of the path description lies in the square of side \<open>size\<close>.\<close>

definition path_in_box :: "props \<Rightarrow> bool" where
  "path_in_box pr = list_all (\<lambda>c. in_box (size_prop pr) (cmd_point c)) (d_path pr)"

section \<open>Measuring and playback notifications\<close>

text \<open>The animation-frame callback that measures the rendered path.\<close>

definition measurePathLen :: "state \<Rightarrow> state" where
  "measurePathLen s =
     (case pathRef s of
        None \<Rightarrow> s
      | Some p \<Rightarrow> s\<lparr>pathLen := getTotalLength p\<rparr>)"

text \<open>
  The media element's listeners. \<open>v.currentTime\<close> is finite, so \<open>v.currentTime || 0\<close>
  is \<open>v.currentTime\<close>.
\<close>

definition onLoaded :: "state \<Rightarrow> state" where
  "onLoaded s =
     (case videoRef s of
        None \<Rightarrow> s
      | Some v \<Rightarrow> s\<lparr>duration := js_or_zero (v_duration v)\<rparr>)"

definition onTime :: "state \<Rightarrow> state" where
  "onTime s =
     (case videoRef s of
        None \<Rightarrow> s
      | Some v \<Rightarrow> s\<lparr>current := v_currentTime v\<rparr>)"

definition onEnd :: "state \<Rightarrow> state" where
  "onEnd s = s\<lparr>isPlaying := False\<rparr>"

text \<open>
  \<open>duration > 0 ? current / duration : 0\<close>, as the exact ratio; \<open>current / Infinity\<close>
  is 0.
\<close>

definition progress :: "state \<Rightarrow> real" where
  "progress s =
     (if js_gt_zero (duration s)
      then (case duration s of Fin d \<Rightarrow> current s / d | _ \<Rightarrow> 0)
      else 0)"

section \<open>Hover: nearest sample along the path\<close>

definition samples :: nat where
  "samples = 480"

text \<open>
  The loop of \<open>handlePointerMove\<close>, from index \<open>i\<close> with the current \<open>bestLen\<close> and
  \<open>bestDist2\<close>.
\<close>

function scan ::
  "path_el \<Rightarrow> real \<Rightarrow> real \<Rightarrow> real \<Rightarrow> nat \<Rightarrow> real \<Rightarrow> jsnum \<Rightarrow> real \<times> jsnum" where
  "scan p plen x y i bestLen bestDist2 =
     (if i \<le> samples then
        (let l = (real i / real samples) * plen;
             pt = getPointAtLength p l;
             dx = pt_x pt - x;
             dy = pt_y pt - y;
             d2 = dx * dx + dy * dy
         in if js_lt d2 bestDist2
            then scan p plen x y (i + 1) l (Fin d2)
            else scan p plen x y (i + 1) bestLen bestDist2)
      else (bestLen, bestDist2))"
  by pat_completeness auto
termination
  by (relation "measure (\<lambda>(p, plen, x, y, i, bestLen, bestDist2). samples + 1 - i)") auto

declare scan.simps [simp del]

text \<open>The arc lengths at which the loop queries the path, in order, from index \<open>i\<close>.\<close>

function sampled :: "real \<Rightarrow> nat \<Rightarrow> real list" where
  "sampled plen i =
     (if i \<le> samples then ((real i / real samples) * plen) # sampled plen (i + 1) else [])"
  by pat_completeness auto
termination
  by (relation "measure (\<lambda>(plen, i). samples + 1 - i)") auto

declare sampled.simps [simp del]

definition handlePointerMove :: "props \<Rightarrow> state \<Rightarrow> pointer_event \<Rightarrow> state" where
  "handlePointerMove pr s e =
     (case pathRef s of
        None \<Rightarrow> s
      | Some p \<Rightarrow>
          (let x = clientX e - rect_left e;
               y = clientY e - rect_top e;
               best = scan p (pathLen s) x y 0 0 PosInf;
               bestLen = fst best;
               bestDist2 = snd best;
               HOVER_TOL = max (barWidth pr) 24
           in if js_le (Math_sqrt bestDist2) HOVER_TOL
              then s\<lparr>hoverLen := Some bestLen\<rparr>
              else s\<lparr>hoverLen := None\<rparr>))"

definition handlePointerLeave :: "state \<Rightarrow> state" where
  "handlePointerLeave s = s\<lparr>hoverLen := None\<rparr>"

section \<open>Seeking\<close>

text \<open>
  The value \<open>seekFromHover\<close> assigns to \<open>currentTime\<close>:
  \<open>Math.max(0, Math.min(duration * frac, duration - 0.01))\<close> with
  \<open>frac = hoverLen / pathLen\<close>.
\<close>

definition seek_time :: "jsnum \<Rightarrow> real \<Rightarrow> real \<Rightarrow> jsnum" where
  "seek_time dur h plen =
     (let frac = js_div h plen
      in Math_max 0 (Math_min (js_mul dur frac) (js_sub dur (1 / 100))))"

text \<open>
  \<open>currentTime\<close> is a WebIDL \<open>double\<close>: assigning a value that is not finite raises
  \<open>TypeError\<close>, and the rest of the handler does not run.
\<close>

definition seekFromHover :: "state \<Rightarrow> error + state" where
  "seekFromHover s =
     (case hoverLen s of
        None \<Rightarrow> Inr s
      | Some h \<Rightarrow>
          (case videoRef s of
             None \<Rightarrow> Inr s
           | Some v \<Rightarrow>
               if js_falsy (duration s) then Inr s
               else
                 (case seek_time (duration s) h (pathLen s) of
                    Fin t \<Rightarrow>
                      Inr (s\<lparr>videoRef := Some (v\<lparr>v_currentTime := t, v_paused := False\<rparr>),
                             isPlaying := True\<rparr>)
                  | _ \<Rightarrow> Inl TypeError)))"

section \<open>Stroke configuration\<close>

text \<open>
  \<open>redDash\<close>, as the pair of numbers its two \<open>toFixed(2)\<close> texts denote. The first text
  prints the double that \<open>progress * pathLen\<close> evaluates to: \<open>progress\<close> holds the double
  nearest to the ratio, and the product is rounded again.
\<close>

definition dash_product :: "state \<Rightarrow> real" where
  "dash_product s = fl (fl (progress s) * pathLen s)"

definition redDash :: "state \<Rightarrow> real \<times> real" where
  "redDash s = (toFixed2 (dash_product s), toFixed2 (pathLen s))"

section \<open>Notions used in the statements\<close>

text \<open>The arc length of sample \<open>i\<close>, as the loop body computes it.\<close>

definition sample_len :: "real \<Rightarrow> nat \<Rightarrow> real" where
  "sample_len plen i = (real i / real samples) * plen"

text \<open>The squared distance from the pointer \<open>(x, y)\<close> to sample \<open>i\<close>, and the distance.\<close>

definition dist2_at :: "path_el \<Rightarrow> real \<Rightarrow> real \<Rightarrow> real \<Rightarrow> nat \<Rightarrow> real" where
  "dist2_at p plen x y i =
     (pt_x (getPointAtLength p (sample_len plen i)) - x)
       * (pt_x (getPointAtLength p (sample_len plen i)) - x)
     + (pt_y (getPointAtLength p (sample_len plen i)) - y)
       * (pt_y (getPointAtLength p (sample_len plen i)) - y)"

definition sample_dist :: "path_el \<Rightarrow> real \<Rightarrow> real \<Rightarrow> real \<Rightarrow> nat \<Rightarrow> real" where
  "sample_dist p plen x y i = sqrt (dist2_at p plen x y i)"

text \<open>
  \<open>k\<close> is the first index below \<open>n\<close> at which \<open>f\<close> is least: no index below \<open>n\<close> has
  a smaller value and every earlier index has a strictly larger one.
\<close>

definition first_min :: "(nat \<Rightarrow> real) \<Rightarrow> nat \<Rightarrow> nat \<Rightarrow> bool" where
  "first_min f n k = (k < n \<and> (\<forall>j<n. f k \<le> f j) \<and> (\<forall>j<k. f k < f j))"

text \<open>The loop invariant of \<open>scan\<close> on entry to iteration \<open>i\<close>.\<close>

definition scan_inv :: "(nat \<Rightarrow> real) \<Rightarrow> real \<Rightarrow> nat \<Rightarrow> real \<Rightarrow> jsnum \<Rightarrow> bool" where
  "scan_inv f plen i bl bd =
     ((i = 0 \<and> bd = PosInf)
      \<or> (\<exists>k. first_min f i k \<and> bl = sample_len plen k \<and> bd = Fin (f k)))"

text \<open>One iteration of the loop body, on the pair \<open>(bestLen, bestDist2)\<close>.\<close>

definition scan_step :: "path_el \<Rightarrow> real \<Rightarrow> real \<Rightarrow> real \<times> jsnum \<Rightarrow> real \<Rightarrow> real \<times> jsnum" where
  "scan_step p x y best l =
     (let d2 = (pt_x (getPointAtLength p l) - x) * (pt_x (getPointAtLength p l) - x)
             + (pt_y (getPointAtLength p l) - y) * (pt_y (getPointAtLength p l) - y)
      in if js_lt d2 (snd best) then (l, Fin d2) else best)"

text \<open>
  \<open>v\<close> is a whole number of hundredths; \<open>v\<close> is \<open>x\<close> rounded to two decimals the way
  \<open>toFixed(2)\<close> rounds: a whole number of hundredths nearest to \<open>x\<close>, the one farther
  from 0 when two are equally near, and \<open>x\<close> itself from \<open>10^21\<close> on.
\<close>

definition hundredths :: "real \<Rightarrow> bool" where
  "hundredths v = (\<exists>n::int. v = of_int n / 100)"

definition rounds_to :: "real \<Rightarrow> real \<Rightarrow> bool" where
  "rounds_to x v =
     ((\<bar>x\<bar> < 10 ^ 21 \<longrightarrow> hundredths v)
      \<and> (10 ^ 21 \<le> \<bar>x\<bar> \<longrightarrow> v = x)
      \<and> \<bar>v - x\<bar> \<le> 1 / 200
      \<and> (0 \<le> x \<longrightarrow> x - 1 / 200 < v)
      \<and> (x < 0 \<longrightarrow> v < x + 1 / 200))"

section \<open>Example inputs\<close>

text \<open>
  A path element whose points run along the line \<open>y = 14\<close> from \<open>(180, 14)\<close>, as the
  default path does along its top edge, and one whose path has collapsed to the single
  point \<open>(14, 14)\<close>, of length 0.
\<close>

definition line_path :: path_el where
  "line_path =
     \<lparr>getTotalLength = 1242,
      getPointAtLength = (\<lambda>l. \<lparr>pt_x = 180 + l, pt_y = 14\<rparr>)\<rparr>"

definition point_path :: path_el where
  "point_path =
     \<lparr>getTotalLength = 0,
      getPointAtLength = (\<lambda>l. \<lparr>pt_x = 14, pt_y = 14\<rparr>)\<rparr>"

definition demo_video :: video where
  "demo_video = \<lparr>v_duration = Fin 10, v_currentTime = 0, v_paused = True\<rparr>"

definition small_props :: props where
  "small_props = \<lparr>size_prop = 28, radius = 50, barWidth = 24\<rparr>"

definition tiny_props :: props where
  "tiny_props = \<lparr>size_prop = 10, radius = 50, barWidth = 24\<rparr>"

text \<open>
  The state once both elements are mounted and the metadata has loaded, before the
  path has been measured (\<open>pathLen\<close> is still 1), and the same with the collapsed path.
\<close>

definition mounted_state :: state where
  "mounted_state =
     onLoaded (initial_state\<lparr>videoRef := Some demo_video, pathRef := Some line_path\<rparr>)"

definition collapsed_state :: state where
  "collapsed_state =
     onLoaded (initial_state\<lparr>videoRef := Some demo_video, pathRef := Some point_path\<rparr>)"

definition ev_at :: "real \<Rightarrow> real \<Rightarrow> pointer_event" where
  "ev_at x y = \<lparr>clientX = x, clientY = y, rect_left = 0, rect_top = 0\<rparr>"


definition measured_state :: state where
  "measured_state =
     handlePointerMove default_props (measurePathLen mounted_state) (ev_at 801 14)"

definition shorter_path :: path_el where
  "shorter_path =
     \<lparr>getTotalLength = 200,
      getPointAtLength = (\<lambda>l. \<lparr>pt_x = 180 + l, pt_y = 14\<rparr>)\<rparr>"

definition remeasured_state :: state where
  "remeasured_state = measurePathLen (measured_state\<lparr>pathRef := Some shorter_path\<rparr>)"

definition tie_state :: state where
  "tie_state = mounted_state\<lparr>duration := Fin 200, current := 3\<rparr>"

definition quarter_state :: state where
  "quarter_state = mounted_state\<lparr>duration := Fin 100, current := 25, pathLen := 9937 / 8\<rparr>"

text \<open>
  The element reports the duration 10 when its metadata loads; later its duration has
  grown to 100 (the component does not listen to \<open>durationchange\<close>) and a
  \<open>timeupdate\<close> arrives at 50.
\<close>

definition stale_state :: state where
  "stale_state =
     onTime
       ((onLoaded (initial_state
            \<lparr>videoRef := Some \<lparr>v_duration = Fin 10, v_currentTime = 0, v_paused = True\<rparr>\<rparr>))
        \<lparr>videoRef := Some \<lparr>v_duration = Fin 100, v_currentTime = 50, v_paused = False\<rparr>\<rparr>)"

section \<open>The scan loop\<close>

lemma scan_unfold:
  "scan p plen x y i bl bd =
     (if i \<le> samples then
        (if js_lt (dist2_at p plen x y i) bd
         then scan p plen x y (Suc i) (sample_len plen i) (Fin (dist2_at p plen x y i))
         else scan p plen x y (Suc i) bl bd)
      else (bl, bd))"
  by (subst scan.simps) (simp add: Let_def dist2_at_def sample_len_def)

lemma first_min_step_new:
  assumes "first_min f i k" "f i < f k"
  shows "first_min f (Suc i) i"
  using assms unfolding first_min_def
  by (auto simp: less_Suc_eq)

lemma first_min_step_keep:
  assumes "first_min f i k" "\<not> f i < f k"
  shows "first_min f (Suc i) k"
  using assms unfolding first_min_def by (auto simp: less_Suc_eq)

lemma scan_inv_step:
  assumes "scan_inv f plen i bl bd"
  shows "if js_lt (f i) bd then scan_inv f plen (Suc i) (sample_len plen i) (Fin (f i))
         else scan_inv f plen (Suc i) bl bd"
proof (cases "i = 0 \<and> bd = PosInf")
  case True
  then show ?thesis by (simp add: scan_inv_def first_min_def)
next
  case False
  with assms obtain k where k: "first_min f i k" "bl = sample_len plen k" "bd = Fin (f k)"
    by (auto simp: scan_inv_def)
  show ?thesis
  proof (cases "f i < f k")
    case True
    with k show ?thesis using first_min_step_new[OF k(1) True]
      by (auto simp: scan_inv_def)
  next
    case False
    with k show ?thesis using first_min_step_keep[OF k(1) False]
      by (auto simp: scan_inv_def)
  qed
qed

lemma scan_preserves_inv:
  "n = Suc samples - i \<Longrightarrow> i \<le> Suc samples \<Longrightarrow>
   scan_inv (dist2_at p plen x y) plen i bl bd \<Longrightarrow>
   scan_inv (dist2_at p plen x y) plen (Suc samples)
     (fst (scan p plen x y i bl bd)) (snd (scan p plen x y i bl bd))"
proof (induction n arbitrary: i bl bd)
  case 0
  then have "i = Suc samples" by simp
  with "0.prems" show ?case by (subst (1 2) scan_unfold) simp
next
  case (Suc n)
  then have le: "i \<le> samples" and n: "n = Suc samples - Suc i" and le': "Suc i \<le> Suc samples"
    by simp_all
  note step = scan_inv_step[OF Suc.prems(3)]
  show ?case
  proof (cases "js_lt (dist2_at p plen x y i) bd")
    case True
    with step have "scan_inv (dist2_at p plen x y) plen (Suc i) (sample_len plen i)
        (Fin (dist2_at p plen x y i))" by simp
    from Suc.IH[OF n le' this] show ?thesis using le True
      by (subst (1 2) scan_unfold) simp
  next
    case False
    with step have "scan_inv (dist2_at p plen x y) plen (Suc i) bl bd" by simp
    from Suc.IH[OF n le' this] show ?thesis using le False
      by (subst (1 2) scan_unfold) simp
  qed
qed

lemma scan_first_min:
  "\<exists>k. first_min (dist2_at p plen x y) (Suc samples) k \<and>
       scan p plen x y 0 0 PosInf = (sample_len plen k, Fin (dist2_at p plen x y k))"
proof -
  have "scan_inv (dist2_at p plen x y) plen 0 0 PosInf" by (simp add: scan_inv_def)
  from scan_preserves_inv[OF refl _ this]
  show ?thesis by (auto simp: scan_inv_def prod_eq_iff)
qed

lemma dist2_at_nonneg: "0 \<le> dist2_at p plen x y i"
  by (simp add: dist2_at_def)

lemma first_min_unique: "first_min f n k \<Longrightarrow> first_min f n k' \<Longrightarrow> k = k'"
  unfolding first_min_def by (metis linorder_neqE_nat not_less)

lemma scan_hit_start:
  assumes "dist2_at p plen x y 0 = 0"
  shows "scan p plen x y 0 0 PosInf = (0, Fin 0)"
proof -
  obtain k where k: "first_min (dist2_at p plen x y) (Suc samples) k"
    and sc: "scan p plen x y 0 0 PosInf = (sample_len plen k, Fin (dist2_at p plen x y k))"
    using scan_first_min by blast
  have "k = 0"
  proof (rule ccontr)
    assume "k \<noteq> 0"
    then have "dist2_at p plen x y k < dist2_at p plen x y 0"
      using k by (simp add: first_min_def)
    with assms dist2_at_nonneg[of p plen x y k] show False by simp
  qed
  with sc assms show ?thesis by (simp add: sample_len_def)
qed

lemma scan_hit_first:
  assumes "k \<le> samples" and "dist2_at p plen x y k = 0"
    and "\<forall>j<k. 0 < dist2_at p plen x y j"
  shows "scan p plen x y 0 0 PosInf = (sample_len plen k, Fin 0)"
proof -
  obtain k' where k': "first_min (dist2_at p plen x y) (Suc samples) k'"
    and sc: "scan p plen x y 0 0 PosInf = (sample_len plen k', Fin (dist2_at p plen x y k'))"
    using scan_first_min by blast
  from k' assms(1) have le: "dist2_at p plen x y k' \<le> dist2_at p plen x y k"
    by (simp add: first_min_def less_Suc_eq_le)
  with assms(2) dist2_at_nonneg[of p plen x y k'] have z: "dist2_at p plen x y k' = 0"
    by simp
  have "k' = k"
  proof (rule ccontr)
    assume ne: "k' \<noteq> k"
    show False
    proof (cases "k' < k")
      case True
      with assms(3) z show False by auto
    next
      case False
      with ne have "k < k'" by simp
      with k' have "dist2_at p plen x y k' < dist2_at p plen x y k"
        by (simp add: first_min_def)
      with assms(2) z show False by simp
    qed
  qed
  with sc z show ?thesis by simp
qed

lemma Min_sample_dist:
  assumes "first_min (dist2_at p plen x y) (Suc samples) k"
  shows "Min (sample_dist p plen x y ` {0..samples}) = sqrt (dist2_at p plen x y k)"
proof (rule Min_eqI)
  show "finite (sample_dist p plen x y ` {0..samples})" by simp
next
  fix d assume "d \<in> sample_dist p plen x y ` {0..samples}"
  then obtain j where "j \<le> samples" "d = sqrt (dist2_at p plen x y j)"
    by (auto simp: sample_dist_def)
  with assms show "sqrt (dist2_at p plen x y k) \<le> d"
    by (simp add: first_min_def less_Suc_eq_le)
next
  from assms have "k \<le> samples" by (simp add: first_min_def)
  then show "sqrt (dist2_at p plen x y k) \<in> sample_dist p plen x y ` {0..samples}"
    by (auto simp: sample_dist_def)
qed

lemma hover_after_move:
  assumes "pathRef s = Some p"
    and "scan p (pathLen s) (clientX e - rect_left e) (clientY e - rect_top e) 0 0 PosInf
         = (bl, Fin d2)"
    and "0 \<le> d2"
  shows "handlePointerMove pr s e =
         (if sqrt d2 \<le> max (barWidth pr) 24 then s\<lparr>hoverLen := Some bl\<rparr>
          else s\<lparr>hoverLen := None\<rparr>)"
  using assms by (simp add: handlePointerMove_def Let_def)

lemma sampled_unfold:
  "sampled plen i = (if i \<le> samples then sample_len plen i # sampled plen (Suc i) else [])"
  by (subst sampled.simps) (simp add: sample_len_def)

lemma scan_step_sample:
  "scan_step p x y (bl, bd) (sample_len plen i) =
     (if js_lt (dist2_at p plen x y i) bd
      then (sample_len plen i, Fin (dist2_at p plen x y i)) else (bl, bd))"
  by (simp add: scan_step_def dist2_at_def Let_def)

lemma sampled_upt:
  "n = Suc samples - i \<Longrightarrow> i \<le> Suc samples \<Longrightarrow>
   sampled plen i = map (sample_len plen) [i..<Suc samples]"
proof (induction n arbitrary: i)
  case 0
  then have "i = Suc samples" by simp
  then show ?case by (subst sampled_unfold) simp
next
  case (Suc n)
  then have le: "i \<le> samples" and n: "n = Suc samples - Suc i" and le': "Suc i \<le> Suc samples"
    by simp_all
  have "[i..<Suc samples] = i # [Suc i..<Suc samples]"
    using le by (simp add: upt_conv_Cons)
  with Suc.IH[OF n le'] le show ?case
    by (subst sampled_unfold) simp
qed

lemma scan_foldl:
  "n = Suc samples - i \<Longrightarrow> i \<le> Suc samples \<Longrightarrow>
   scan p plen x y i bl bd = foldl (scan_step p x y) (bl, bd) (sampled plen i)"
proof (induction n arbitrary: i bl bd)
  case 0
  then have "i = Suc samples" by simp
  then show ?case by (subst scan_unfold, subst sampled_unfold) simp
next
  case (Suc n)
  then have le: "i \<le> samples" and n: "n = Suc samples - Suc i" and le': "Suc i \<le> Suc samples"
    by simp_all
  show ?case
    using le
    by (subst scan_unfold, subst sampled_unfold)
       (simp add: scan_step_sample Suc.IH[OF n le'])
qed

section \<open>The handlers\<close>

lemma handlePointerMove_unmounted:
  "pathRef s = None \<Longrightarrow> handlePointerMove pr s e = s"
  by (simp add: handlePointerMove_def)

lemma seekFromHover_noop:
  "hoverLen s = None \<or> videoRef s = None \<or> duration s = Fin 0 \<Longrightarrow> seekFromHover s = Inr s"
  by (auto simp: seekFromHover_def split: option.splits)

lemma seek_time_finite:
  "plen \<noteq> 0 \<Longrightarrow>
   seek_time (Fin d) h plen = Fin (max 0 (min (d * (h / plen)) (d - 1 / 100)))"
  by (simp add: seek_time_def)

lemma seekFromHover_assigns:
  assumes "hoverLen s = Some h" and "videoRef s = Some v"
    and "duration s = Fin d" and "d \<noteq> 0" and "pathLen s \<noteq> 0"
  shows "seekFromHover s =
         Inr (s\<lparr>videoRef := Some (v\<lparr>v_currentTime :=
                                       max 0 (min (d * (h / pathLen s)) (d - 1 / 100)),
                                     v_paused := False\<rparr>),
                isPlaying := True\<rparr>)"
  using assms by (simp add: seekFromHover_def seek_time_finite)

text \<open>With the duration \<open>Infinity\<close> the time to assign is not finite.\<close>

lemma seek_time_infinite_duration:
  "0 < plen \<Longrightarrow> 0 \<le> h \<Longrightarrow> seek_time PosInf h plen = (if h = 0 then NaN else PosInf)"
  by (simp add: seek_time_def)

lemma seekFromHover_infinite_duration:
  assumes "hoverLen s = Some h" and "videoRef s = Some v"
    and "duration s = PosInf" and "0 < pathLen s" and "0 \<le> h"
  shows "seekFromHover s = Inl TypeError"
  using assms by (simp add: seekFromHover_def seek_time_infinite_duration)

section \<open>The path description\<close>

lemma pad_ge_2: "0 \<le> barWidth pr \<Longrightarrow> 2 \<le> pad pr"
proof -
  assume "0 \<le> barWidth pr"
  then have "0 \<le> barWidth pr / 2" by simp
  then have "0 \<le> \<lceil>barWidth pr / 2\<rceil>" by (simp add: ceiling_le_iff[symmetric] le_ceiling_iff)
  then show ?thesis by (simp add: pad_def)
qed

lemma d_path_points:
  "map cmd_point (d_path pr) =
     (let w = size_prop pr - pad pr * 2;
          r = min (radius pr) (w / 2)
      in [(pad pr + w / 2, pad pr),
          (pad pr + w - r, pad pr),
          (pad pr + w, pad pr + r),
          (pad pr + w, pad pr + w - r),
          (pad pr + w - r, pad pr + w),
          (pad pr + r, pad pr + w),
          (pad pr, pad pr + w - r),
          (pad pr, pad pr + r),
          (pad pr + r, pad pr),
          (pad pr + w / 2, pad pr)])"
  by (simp add: d_path_def Let_def)

lemma box_arith:
  fixes P S R :: real
  assumes "2 \<le> P" "0 \<le> R"
  shows "(let w = S - P * 2; r = min R (w / 2)
          in (\<forall>q \<in> set [(P + w / 2, P), (P + w - r, P), (P + w, P + r), (P + w, P + w - r),
                  (P + w - r, P + w), (P + r, P + w), (P, P + w - r), (P, P + r),
                  (P + r, P), (P + w / 2, P)]. in_box S q)) = (P \<le> S)"
proof (cases "R \<le> (S - P * 2) / 2")
  case True
  with assms show ?thesis
    by (auto simp: Let_def in_box_def min_def field_simps)
next
  case False
  with assms show ?thesis
    by (auto simp: Let_def in_box_def min_def field_simps)
qed

lemma d_path_in_box_iff:
  assumes "0 \<le> radius pr" and "0 \<le> barWidth pr"
  shows "path_in_box pr = (pad pr \<le> size_prop pr)"
proof -
  have p2: "2 \<le> pad pr" by (rule pad_ge_2[OF assms(2)])
  have "path_in_box pr
        = (\<forall>q \<in> set (map cmd_point (d_path pr)). in_box (size_prop pr) q)"
    by (simp add: path_in_box_def list_all_iff)
  also have "\<dots> = (pad pr \<le> size_prop pr)"
    unfolding d_path_points
    using box_arith[OF p2 assms(1), of "size_prop pr"] by (simp only: Let_def)
  finally show ?thesis .
qed

lemma d_path_radii:
  "map cmd_radii (d_path pr) =
     (let r = min (radius pr) (min ((size_prop pr - 2 * pad pr) / 2)
                                   ((size_prop pr - 2 * pad pr) / 2))
      in [None, None, Some (r, r), None, Some (r, r), None, Some (r, r), None,
          Some (r, r), None])"
  by (simp add: d_path_def Let_def mult.commute)

lemma pad_24: "pad \<lparr>size_prop = sz, radius = r, barWidth = 24\<rparr> = 14"
  by (simp add: pad_def)

section \<open>Rounding to hundredths\<close>

lemma round_hundredths_close:
  fixes a :: real
  shows "\<bar>of_int \<lfloor>a * 100 + 1 / 2\<rfloor> / 100 - a\<bar> \<le> 1 / 200"
proof -
  have 1: "of_int \<lfloor>a * 100 + 1 / 2\<rfloor> \<le> a * 100 + 1 / 2" by (rule of_int_floor_le)
  have 2: "a * 100 + 1 / 2 < of_int \<lfloor>a * 100 + 1 / 2\<rfloor> + 1" by linarith
  from 1 2 show ?thesis by linarith
qed

lemma toFixed2_close: "\<bar>toFixed2 x - x\<bar> \<le> 1 / 200"
proof (cases "x < 0")
  case True
  from round_hundredths_close[of "- x"]
  have "\<bar>- (of_int \<lfloor>- x * 100 + 1 / 2\<rfloor> / 100) - x\<bar> \<le> 1 / 200"
    by linarith
  with True show ?thesis by (simp add: toFixed2_def Let_def)
next
  case False
  with round_hundredths_close[of x] show ?thesis by (simp add: toFixed2_def Let_def)
qed

lemma toFixed2_hundredths:
  assumes "\<bar>x\<bar> < 10 ^ 21" and "x = of_int n / 100"
  shows "toFixed2 x = x"
proof (cases "x < 0")
  case True
  have "- x * 100 + 1 / 2 = of_int (- n) + 1 / 2" using assms(2) by simp
  then have "\<lfloor>- x * 100 + 1 / 2\<rfloor> = - n" by (simp only: floor_add_int) simp
  with True assms show ?thesis by (simp add: toFixed2_def Let_def)
next
  case False
  have "x * 100 + 1 / 2 = of_int n + 1 / 2" using assms(2) by simp
  then have "\<lfloor>x * 100 + 1 / 2\<rfloor> = n" by (simp only: floor_add_int) simp
  with False assms show ?thesis by (simp add: toFixed2_def Let_def)
qed

lemma toFixed2_rounds_to: "rounds_to x (toFixed2 x)"
proof (cases "10 ^ 21 \<le> \<bar>x\<bar>")
  case True
  then have "toFixed2 x = x" by (auto simp: toFixed2_def Let_def abs_if)
  with True show ?thesis by (simp add: rounds_to_def)
next
  case small: False
  show ?thesis
  proof (cases "x < 0")
    case True
    let ?n = "\<lfloor>- x * 100 + 1 / 2\<rfloor>"
    have v: "toFixed2 x = - (of_int ?n / 100)"
      using True small by (simp add: toFixed2_def Let_def)
    have h: "hundredths (toFixed2 x)"
      unfolding v hundredths_def by (rule exI[of _ "- ?n"]) simp
    have "- x * 100 + 1 / 2 < of_int ?n + 1" by linarith
    then have t: "toFixed2 x < x + 1 / 200" unfolding v by linarith
    from h t True small toFixed2_close[of x] show ?thesis by (simp add: rounds_to_def)
  next
    case False
    let ?n = "\<lfloor>x * 100 + 1 / 2\<rfloor>"
    have v: "toFixed2 x = of_int ?n / 100"
      using False small by (simp add: toFixed2_def Let_def)
    have h: "hundredths (toFixed2 x)"
      unfolding v hundredths_def by (rule exI[of _ ?n]) simp
    have "x * 100 + 1 / 2 < of_int ?n + 1" by linarith
    then have t: "x - 1 / 200 < toFixed2 x" unfolding v by linarith
    from h t False small toFixed2_close[of x] show ?thesis by (simp add: rounds_to_def)
  qed
qed

lemma toFixed2_of_hundredths: "hundredths x \<Longrightarrow> toFixed2 x = x"
proof (cases "10 ^ 21 \<le> \<bar>x\<bar>")
  case True
  then show ?thesis by (auto simp: toFixed2_def Let_def abs_if)
next
  case False
  assume "hundredths x"
  then obtain n :: int where "x = of_int n / 100" by (auto simp: hundredths_def)
  with False show ?thesis by (intro toFixed2_hundredths[where n = n]) simp_all
qed

text \<open>So \<open>rounds_to\<close> determines the rounded number.\<close>

lemma rounds_to_unique:
  assumes "rounds_to x v" and "rounds_to x w"
  shows "v = w"
proof (cases "10 ^ 21 \<le> \<bar>x\<bar>")
  case True
  with assms show ?thesis by (simp add: rounds_to_def)
next
  case False
  with assms obtain m n :: int where v: "v = of_int m / 100" and w: "w = of_int n / 100"
    by (auto simp: rounds_to_def hundredths_def)
  have "\<bar>v - w\<bar> < 1 / 100"
  proof (cases "0 \<le> x")
    case True
    with assms have "x - 1 / 200 < v" "x - 1 / 200 < w" "\<bar>v - x\<bar> \<le> 1 / 200"
      "\<bar>w - x\<bar> \<le> 1 / 200"
      by (simp_all only: rounds_to_def)
    then show ?thesis by linarith
  next
    case False
    then have "x < 0" by simp
    with assms have "v < x + 1 / 200" "w < x + 1 / 200" "\<bar>v - x\<bar> \<le> 1 / 200"
      "\<bar>w - x\<bar> \<le> 1 / 200"
      by (simp_all only: rounds_to_def)
    then show ?thesis by linarith
  qed
  then have "\<bar>(of_int m :: real) - of_int n\<bar> < 1" unfolding v w by (simp add: field_simps)
  then have "\<bar>m - n\<bar> < 1" by (metis of_int_abs of_int_diff of_int_less_1_iff)
  then have "m = n" by simp
  then show ?thesis by (simp add: v w)
qed

section \<open>Rounding to the nearest double\<close>

lemma fl_eval:
  assumes "x \<noteq> 0" and "2 powr of_int e \<le> \<bar>x\<bar>" and "\<bar>x\<bar> < 2 powr (of_int e + 1)"
    and "- 1022 \<le> e"
  shows "fl x = sgn x * (of_int (round_even (\<bar>x\<bar> / 2 powr (of_int e - 52)))
                         * 2 powr (of_int e - 52))"
proof -
  have "\<lfloor>log 2 \<bar>x\<bar>\<rfloor> = e"
    using assms(1-3) by (subst floor_log_eq_powr_iff) simp_all
  with assms(1,4) show ?thesis by (simp add: fl_def Let_def max_def)
qed

lemma fl_quarter: "fl (1 / 4) = 1 / 4"
proof -
  have "fl (1 / 4) = sgn (1 / 4 :: real)
        * (of_int (round_even (\<bar>1 / 4\<bar> / 2 powr (of_int (- 2) - 52)))
           * 2 powr (of_int (- 2) - 52))"
    by (rule fl_eval) (simp_all add: powr_minus)
  also have "(2::real) powr (of_int (- 2) - 52) = 1 / 2 ^ 54"
    by (simp add: powr_minus inverse_eq_divide)
  also have "round_even (\<bar>1 / 4 :: real\<bar> / (1 / 2 ^ 54)) = 2 ^ 52"
    by (simp add: round_even_def Let_def)
  finally show ?thesis by simp
qed

text \<open>The double nearest to 0.015 lies below it.\<close>

lemma fl_3_200: "fl (3 / 200) = 1080863910568919 / 72057594037927936"
proof -
  have "fl (3 / 200) = sgn (3 / 200 :: real)
        * (of_int (round_even (\<bar>3 / 200\<bar> / 2 powr (of_int (- 7) - 52)))
           * 2 powr (of_int (- 7) - 52))"
    by (rule fl_eval) (simp_all add: powr_minus)
  also have "(2::real) powr (of_int (- 7) - 52) = 1 / 2 ^ 59"
    by (simp add: powr_minus inverse_eq_divide)
  also have "round_even (\<bar>3 / 200 :: real\<bar> / (1 / 2 ^ 59)) = 8646911284551352"
    by (simp add: round_even_def Let_def)
  finally show ?thesis by simp
qed

lemma fl_3_200_again: "fl (1080863910568919 / 72057594037927936) = 1080863910568919 / 72057594037927936"
proof -
  have "fl (1080863910568919 / 72057594037927936) = sgn (1080863910568919 / 72057594037927936 :: real)
        * (of_int (round_even (\<bar>1080863910568919 / 72057594037927936\<bar> / 2 powr (of_int (- 7) - 52)))
           * 2 powr (of_int (- 7) - 52))"
    by (rule fl_eval) (simp_all add: powr_minus)
  also have "(2::real) powr (of_int (- 7) - 52) = 1 / 2 ^ 59"
    by (simp add: powr_minus inverse_eq_divide)
  also have "round_even (\<bar>1080863910568919 / 72057594037927936 :: real\<bar> / (1 / 2 ^ 59))
             = 8646911284551352"
    by (simp add: round_even_def Let_def)
  finally show ?thesis by simp
qed

lemma fl_9937_32: "fl (9937 / 32) = 9937 / 32"
proof -
  have "fl (9937 / 32) = sgn (9937 / 32 :: real)
        * (of_int (round_even (\<bar>9937 / 32\<bar> / 2 powr (of_int 8 - 52)))
           * 2 powr (of_int 8 - 52))"
    by (rule fl_eval) simp_all
  also have "(2::real) powr (of_int 8 - 52) = 1 / 2 ^ 44"
    by (simp add: powr_minus inverse_eq_divide)
  also have "round_even (\<bar>9937 / 32 :: real\<bar> / (1 / 2 ^ 44)) = 9937 * 2 ^ 39"
    by (simp add: round_even_def Let_def)
  finally show ?thesis by simp
qed

section \<open>The example inputs\<close>

lemma mounted_state_simps:
  "pathRef mounted_state = Some line_path"
  "videoRef mounted_state = Some demo_video"
  "pathLen mounted_state = 1"
  "duration mounted_state = Fin 10"
  "hoverLen mounted_state = None"
  "current mounted_state = 0"
  by (simp_all add: mounted_state_def onLoaded_def initial_state_def demo_video_def
      js_or_zero_def)

lemma ev_at_simps:
  "clientX (ev_at x y) - rect_left (ev_at x y) = x"
  "clientY (ev_at x y) - rect_top (ev_at x y) = y"
  by (simp_all add: ev_at_def)

lemma line_path_start: "dist2_at line_path plen 180 14 0 = 0"
  by (simp add: dist2_at_def sample_len_def line_path_def)

lemma move_to_start:
  assumes "pathRef s = Some line_path"
  shows "handlePointerMove pr s (ev_at 180 14) = s\<lparr>hoverLen := Some 0\<rparr>"
proof -
  have sc: "scan line_path (pathLen s) (clientX (ev_at 180 14) - rect_left (ev_at 180 14))
              (clientY (ev_at 180 14) - rect_top (ev_at 180 14)) 0 0 PosInf = (0, Fin 0)"
    unfolding ev_at_simps by (rule scan_hit_start[OF line_path_start])
  show ?thesis
    using hover_after_move[OF assms sc, of pr] by simp
qed


lemma line_path_middle:
  "dist2_at line_path 1242 801 14 j = ((real j - 240) * (1242 / 480)) * ((real j - 240) * (1242 / 480))"
  by (simp add: dist2_at_def sample_len_def line_path_def samples_def field_simps)

lemma measured_state_eq:
  "measured_state = (measurePathLen mounted_state)\<lparr>hoverLen := Some 621\<rparr>"
proof -
  let ?s = "measurePathLen mounted_state"
  have p: "pathRef ?s = Some line_path" and l: "pathLen ?s = 1242"
    by (simp_all add: measurePathLen_def mounted_state_simps line_path_def)
  have z: "dist2_at line_path 1242 801 14 240 = 0" by (simp add: line_path_middle)
  have pos: "\<forall>j<240. 0 < dist2_at line_path 1242 801 14 j"
  proof (intro allI impI)
    fix j :: nat assume "j < 240"
    then have "(real j - 240) * (1242 / 480) \<noteq> 0" by simp
    then have "0 < ((real j - 240) * (1242 / 480)) * ((real j - 240) * (1242 / 480))"
      by (auto simp: zero_less_mult_iff)
    then show "0 < dist2_at line_path 1242 801 14 j"
      by (simp only: line_path_middle)
  qed
  have "scan line_path 1242 801 14 0 0 PosInf = (sample_len 1242 240, Fin 0)"
    by (rule scan_hit_first[OF _ z pos]) (simp add: samples_def)
  then have sc: "scan line_path (pathLen ?s) (clientX (ev_at 801 14) - rect_left (ev_at 801 14))
              (clientY (ev_at 801 14) - rect_top (ev_at 801 14)) 0 0 PosInf = (621, Fin 0)"
    unfolding ev_at_simps l by (simp add: sample_len_def samples_def)
  show ?thesis
    unfolding measured_state_def
    using hover_after_move[OF p sc, of default_props] by simp
qed

lemma measured_state_simps:
  "hoverLen measured_state = Some 621" "videoRef measured_state = Some demo_video"
  "pathLen measured_state = 1242" "duration measured_state = Fin 10"
  "pathRef measured_state = Some line_path"
  by (simp_all add: measured_state_eq measurePathLen_def mounted_state_simps line_path_def)

lemma remeasured_state_simps:
  "hoverLen remeasured_state = Some 621" "pathLen remeasured_state = 200"
  by (simp_all add: remeasured_state_def measurePathLen_def measured_state_simps
      shorter_path_def)

lemma quarter_state_simps:
  "duration quarter_state = Fin 100" "current quarter_state = 25"
  "pathLen quarter_state = 9937 / 8"
  by (simp_all add: quarter_state_def)

lemma tie_state_simps:
  "duration tie_state = Fin 200" "current tie_state = 3" "pathLen tie_state = 1"
  by (simp_all add: tie_state_def mounted_state_simps)

text \<open>
  At 3 s of 200 s with the length 1 the ratio is 0.015, the double printed lies just
  below it, and the first number of the pattern is 0.01.
\<close>

lemma redDash_tie_state: "redDash tie_state = (1 / 100, 1)"
proof -
  have p: "progress tie_state = 3 / 200" by (simp add: progress_def tie_state_simps)
  have dp: "dash_product tie_state = 1080863910568919 / 72057594037927936"
    by (simp add: dash_product_def p tie_state_simps fl_3_200 fl_3_200_again)
  have a: "toFixed2 (1080863910568919 / 72057594037927936) = 1 / 100"
    by (simp add: toFixed2_def Let_def)
  have b: "toFixed2 1 = 1" by (simp add: toFixed2_def Let_def)
  show ?thesis using a b by (simp add: redDash_def dp tie_state_simps)
qed

lemma collapsed_state_simps:
  "pathRef collapsed_state = Some point_path"
  "videoRef collapsed_state = Some demo_video"
  "pathLen collapsed_state = 1"
  "duration collapsed_state = Fin 10"
  "hoverLen collapsed_state = None"
  by (simp_all add: collapsed_state_def onLoaded_def initial_state_def demo_video_def
      js_or_zero_def)

lemma d_path_small_props:
  "map cmd_point (d_path small_props) = replicate 10 (14, 14)"
  by (simp add: d_path_points small_props_def pad_24 Let_def numeral_eq_Suc)

section \<open>Claims\<close>

text \<open>
  Claim C1, as amended. The handlers do not test \<open>pathLen\<close>. While no path element is
  mounted, pointer-move leaves the state as it is. Pointer-down assigns no time and
  starts no playback whenever the hover location is null, the media element is absent
  or the duration is 0. So with no path element and no hover location, a pointer-move
  followed by a pointer-down changes nothing.
\<close>

theorem C1_hover_and_seek_guards:
  "(pathRef s = None \<longrightarrow> handlePointerMove pr s e = s)
   \<and> (hoverLen s = None \<or> videoRef s = None \<or> duration s = Fin 0 \<longrightarrow> seekFromHover s = Inr s)
   \<and> (pathRef s = None \<and> hoverLen s = None \<longrightarrow>
        hoverLen (handlePointerMove pr s e) = None
        \<and> seekFromHover (handlePointerMove pr s e) = Inr s)"
  using handlePointerMove_unmounted[of s pr e] seekFromHover_noop[of s] by auto

text \<open>C1 at the initial state, with the pointer at the start of the default path.\<close>

theorem C1_guards_witness:
  "pathRef initial_state = None
   \<and> hoverLen initial_state = None
   \<and> handlePointerMove default_props initial_state (ev_at 180 14) = initial_state
   \<and> seekFromHover initial_state = Inr initial_state
   \<and> hoverLen (handlePointerMove default_props initial_state (ev_at 180 14)) = None
   \<and> seekFromHover (handlePointerMove default_props initial_state (ev_at 180 14))
       = Inr initial_state"
proof -
  have p: "pathRef initial_state = None" and h: "hoverLen initial_state = None"
    by (simp_all add: initial_state_def)
  from C1_hover_and_seek_guards[of initial_state default_props "ev_at 180 14"] p h
  show ?thesis by simp
qed

text \<open>
  Claim C1 as stated fails: with both elements mounted and \<open>pathLen\<close> still at the
  placeholder 1, a pointer-move at the start of the path sets the hover location 0, and
  the pointer-down that follows assigns the time 0 and starts playback.
\<close>

theorem C1_placeholder_length_counterexample:
  "pathLen mounted_state = 1
   \<and> hoverLen (handlePointerMove default_props mounted_state (ev_at 180 14)) = Some 0
   \<and> seekFromHover (handlePointerMove default_props mounted_state (ev_at 180 14))
       = Inr (mounted_state\<lparr>hoverLen := Some 0,
                videoRef := Some (demo_video\<lparr>v_currentTime := 0, v_paused := False\<rparr>),
                isPlaying := True\<rparr>)
   \<and> v_paused demo_video
   \<and> isPlaying mounted_state = False"
proof -
  have mv: "handlePointerMove default_props mounted_state (ev_at 180 14)
            = mounted_state\<lparr>hoverLen := Some 0\<rparr>"
    by (rule move_to_start) (rule mounted_state_simps)
  have sk: "seekFromHover (mounted_state\<lparr>hoverLen := Some 0\<rparr>)
            = Inr (mounted_state\<lparr>hoverLen := Some 0,
                videoRef := Some (demo_video\<lparr>v_currentTime := 0, v_paused := False\<rparr>),
                isPlaying := True\<rparr>)"
    by (subst seekFromHover_assigns[where h = 0 and v = demo_video and d = 10])
       (simp_all add: mounted_state_simps)
  have "v_paused demo_video" by (simp add: demo_video_def)
  moreover have "isPlaying mounted_state = False"
    by (simp add: mounted_state_def onLoaded_def initial_state_def)
  ultimately show ?thesis using mv sk by (simp add: mounted_state_simps)
qed




text \<open>
  Claim C3. With a path element mounted, pointer-move sets a non-null hover location
  exactly when the least Euclidean distance from the pointer to the sampled points is at
  most \<open>max(barWidth, 24)\<close>; this tolerance is at least 24.
\<close>

theorem C3_hover_iff_within_tolerance:
  assumes "pathRef s = Some p"
  shows "(hoverLen (handlePointerMove pr s e) \<noteq> None)
           = (Min (sample_dist p (pathLen s) (clientX e - rect_left e) (clientY e - rect_top e)
                   ` {0..samples}) \<le> max (barWidth pr) 24)
         \<and> 24 \<le> max (barWidth pr) 24"
proof -
  let ?x = "clientX e - rect_left e" and ?y = "clientY e - rect_top e"
  obtain k where k: "first_min (dist2_at p (pathLen s) ?x ?y) (Suc samples) k"
    and sc: "scan p (pathLen s) ?x ?y 0 0 PosInf
             = (sample_len (pathLen s) k, Fin (dist2_at p (pathLen s) ?x ?y k))"
    using scan_first_min by blast
  note mv = hover_after_move[OF assms sc dist2_at_nonneg, of pr]
  show ?thesis
    by (simp add: mv Min_sample_dist[OF k])
qed

text \<open>C3 at the mounted state, with the pointer at the start of the path.\<close>

theorem C3_tolerance_witness:
  "pathRef mounted_state = Some line_path
   \<and> hoverLen (handlePointerMove default_props mounted_state (ev_at 180 14)) = Some 0
   \<and> Min (sample_dist line_path 1 180 14 ` {0..samples}) \<le> 24"
proof -
  have p: "pathRef mounted_state = Some line_path" by (rule mounted_state_simps)
  have h: "hoverLen (handlePointerMove default_props mounted_state (ev_at 180 14)) = Some 0"
    by (simp add: move_to_start[OF p])
  from C3_hover_iff_within_tolerance[OF p, of default_props "ev_at 180 14"] h
  have "Min (sample_dist line_path (pathLen mounted_state) 180 14 ` {0..samples})
        \<le> max (barWidth default_props) 24"
    by (simp add: ev_at_simps)
  then have "Min (sample_dist line_path 1 180 14 ` {0..samples}) \<le> 24"
    by (simp add: mounted_state_simps default_props_def)
  with p h show ?thesis by blast
qed

text \<open>
  Claim C4, as amended. For \<open>radius \<ge> 0\<close> and \<open>barWidth \<ge> 0\<close> the path starts at the
  top-midpoint \<open>(pad + w / 2, pad)\<close>, with \<open>pad = ceil(barWidth / 2) + 2\<close> and
  \<open>w = size - 2 * pad\<close>, and ends at the same point; its four arcs have both radii
  \<open>min(radius, w / 2, h / 2)\<close>; and every point of the path lies in
  \<open>[0, size] \<times> [0, size]\<close> exactly when \<open>size \<ge> pad\<close>.
\<close>

theorem C4_path_closed_radius_box:
  assumes "0 \<le> radius pr" and "0 \<le> barWidth pr"
  shows "hd (d_path pr) = M (pad pr + (size_prop pr - 2 * pad pr) / 2) (pad pr)
         \<and> pad pr = of_int \<lceil>barWidth pr / 2\<rceil> + 2
         \<and> cmd_point (last (d_path pr)) = cmd_point (hd (d_path pr))
         \<and> map cmd_radii (d_path pr) =
             (let r = min (radius pr) (min ((size_prop pr - 2 * pad pr) / 2)
                                           ((size_prop pr - 2 * pad pr) / 2))
              in [None, None, Some (r, r), None, Some (r, r), None, Some (r, r), None,
                  Some (r, r), None])
         \<and> path_in_box pr = (pad pr \<le> size_prop pr)"
proof (intro conjI)
  show "hd (d_path pr) = M (pad pr + (size_prop pr - 2 * pad pr) / 2) (pad pr)"
    by (simp add: d_path_def Let_def mult.commute)
  show "pad pr = of_int \<lceil>barWidth pr / 2\<rceil> + 2" by (simp add: pad_def)
  show "cmd_point (last (d_path pr)) = cmd_point (hd (d_path pr))"
    by (simp add: d_path_def Let_def)
  show "map cmd_radii (d_path pr) =
             (let r = min (radius pr) (min ((size_prop pr - 2 * pad pr) / 2)
                                           ((size_prop pr - 2 * pad pr) / 2))
              in [None, None, Some (r, r), None, Some (r, r), None, Some (r, r), None,
                  Some (r, r), None])"
    by (rule d_path_radii)
  show "path_in_box pr = (pad pr \<le> size_prop pr)"
    by (rule d_path_in_box_iff[OF assms])
qed

text \<open>C4 at the default props: the path starts and ends at \<open>(180, 14)\<close> and lies in the box.\<close>

theorem C4_default_path_witness:
  "0 \<le> radius default_props \<and> 0 \<le> barWidth default_props
   \<and> hd (d_path default_props) = M 180 14
   \<and> cmd_point (last (d_path default_props)) = (180, 14)
   \<and> pad default_props \<le> size_prop default_props
   \<and> path_in_box default_props"
proof -
  have r: "0 \<le> radius default_props" and b: "0 \<le> barWidth default_props"
    by (simp_all add: default_props_def)
  have p: "pad default_props = 14" by (simp add: default_props_def pad_24)
  have s: "size_prop default_props = 360" by (simp add: default_props_def)
  from C4_path_closed_radius_box[OF r b] r b show ?thesis
    by (simp add: p s)
qed

text \<open>
  Claim C4 as stated fails when \<open>size\<close> is below the padding: with size 10 and the
  default stroke width the path starts at \<open>(5, 14)\<close>, outside the square of side 10.
\<close>

theorem C4_small_size_counterexample:
  "0 \<le> radius tiny_props \<and> 0 \<le> barWidth tiny_props
   \<and> size_prop tiny_props = 10
   \<and> hd (d_path tiny_props) = M 5 14
   \<and> \<not> in_box (size_prop tiny_props) (cmd_point (hd (d_path tiny_props)))
   \<and> \<not> path_in_box tiny_props"
  by (simp add: tiny_props_def d_path_def Let_def pad_24 in_box_def path_in_box_def)

text \<open>
  Claim C5, as amended. The search runs the loop body once for each of the 481 arc
  lengths \<open>(i / 480) * pathLen\<close>, \<open>i = 0, \<dots>, 480\<close>, in this order: 480 equal steps from
  0 to \<open>pathLen\<close>, both ends included. For each it computes the squared distance from the
  pointer to the point at that arc length and keeps it when it is smaller than the best
  so far.
\<close>

theorem C5_scan_visits_481_samples:
  "scan p plen x y 0 bl bd = foldl (scan_step p x y) (bl, bd) (sampled plen 0)
   \<and> sampled plen 0 = map (\<lambda>i. (real i / 480) * plen) [0..<481]
   \<and> length (sampled plen 0) = 481
   \<and> hd (sampled plen 0) = 0
   \<and> last (sampled plen 0) = plen"
proof -
  have s: "sampled plen 0 = map (sample_len plen) [0..<Suc samples]"
    by (rule sampled_upt[OF refl]) simp
  have m: "sampled plen 0 = map (\<lambda>i. (real i / 480) * plen) [0..<481]"
    unfolding s by (simp add: samples_def sample_len_def)
  have l: "length (sampled plen 0) = 481" unfolding s by (simp add: samples_def)
  have h: "hd (sampled plen 0) = 0"
    unfolding s by (simp add: upt_conv_Cons sample_len_def)
  have "last (sampled plen 0) = sample_len plen samples"
    unfolding s by (simp add: last_map del: upt_Suc)
  then have la: "last (sampled plen 0) = plen" by (simp add: sample_len_def samples_def)
  have f: "scan p plen x y 0 bl bd = foldl (scan_step p x y) (bl, bd) (sampled plen 0)"
    by (rule scan_foldl[OF refl]) simp
  from f m l h la show ?thesis by blast
qed

text \<open>
  Claim C5 as stated fails: on a path of length 1242 the loop queries 481 arc lengths,
  all different, not 480.
\<close>

theorem C5_sample_count_counterexample:
  "length (sampled (getTotalLength line_path) 0) = 481
   \<and> card (set (sampled (getTotalLength line_path) 0)) = 481
   \<and> length (sampled (getTotalLength line_path) 0) \<noteq> 480"
proof -
  have s: "sampled (getTotalLength line_path) 0
           = map (sample_len (getTotalLength line_path)) [0..<Suc samples]"
    by (rule sampled_upt[OF refl]) simp
  have inj: "inj_on (sample_len (getTotalLength line_path)) {0..<Suc samples}"
    by (rule inj_onI) (simp add: sample_len_def line_path_def samples_def)
  have d: "distinct (sampled (getTotalLength line_path) 0)"
    unfolding s by (simp add: distinct_map inj del: upt_Suc)
  have l: "length (sampled (getTotalLength line_path) 0) = 481"
    unfolding s by (simp add: samples_def)
  from distinct_card[OF d] l show ?thesis by simp
qed

text \<open>
  Claim C6, as amended. The progress ratio is \<open>current / duration\<close> when
  \<open>duration > 0\<close> (which is 0 when the duration is \<open>Infinity\<close>) and 0 when
  \<open>duration\<close> is 0; it lies in \<open>[0, 1]\<close> whenever \<open>0 \<le> current \<le> duration\<close>.
\<close>

theorem C6_progress_ratio:
  "(duration s = Fin d \<and> 0 < d \<longrightarrow> progress s = current s / d)
   \<and> (duration s = PosInf \<longrightarrow> progress s = 0)
   \<and> (duration s = Fin 0 \<longrightarrow> progress s = 0)
   \<and> (duration s = Fin d \<and> 0 \<le> current s \<and> current s \<le> d \<longrightarrow>
        0 \<le> progress s \<and> progress s \<le> 1)
   \<and> (duration s = PosInf \<and> 0 \<le> current s \<longrightarrow> 0 \<le> progress s \<and> progress s \<le> 1)"
  by (auto simp: progress_def)

text \<open>C6 at 25 s of 100 s, and at the initial state, where the duration is 0.\<close>

theorem C6_progress_witness:
  "duration (initial_state\<lparr>duration := Fin 100, current := 25\<rparr>) = Fin 100
   \<and> (0::real) < 100
   \<and> progress (initial_state\<lparr>duration := Fin 100, current := 25\<rparr>) = 1 / 4
   \<and> duration initial_state = Fin 0 \<and> progress initial_state = 0
   \<and> 0 \<le> current (initial_state\<lparr>duration := Fin 100, current := 25\<rparr>)
   \<and> current (initial_state\<lparr>duration := Fin 100, current := 25\<rparr>) \<le> 100
   \<and> 0 \<le> progress (initial_state\<lparr>duration := Fin 100, current := 25\<rparr>)
   \<and> progress (initial_state\<lparr>duration := Fin 100, current := 25\<rparr>) \<le> 1
   \<and> duration (initial_state\<lparr>duration := PosInf, current := 25\<rparr>) = PosInf
   \<and> progress (initial_state\<lparr>duration := PosInf, current := 25\<rparr>) = 0"
  using C6_progress_ratio[of "initial_state\<lparr>duration := Fin 100, current := 25\<rparr>" 100]
    C6_progress_ratio[of initial_state 0]
    C6_progress_ratio[of "initial_state\<lparr>duration := PosInf, current := 25\<rparr>" 0]
  by (simp add: initial_state_def)

text \<open>
  Claim C6 as stated fails: the ratio is not clamped. When the duration 10 was stored
  at \<open>loadedmetadata\<close> and a \<open>timeupdate\<close> arrives at 50, the progress is 5.
\<close>

theorem C6_stale_duration_counterexample:
  "duration stale_state = Fin 10
   \<and> current stale_state = 50
   \<and> progress stale_state = 5
   \<and> \<not> progress stale_state \<le> 1"
  by (simp add: progress_def stale_state_def onLoaded_def onTime_def initial_state_def
      js_or_zero_def)

text \<open>
  Claim C7. With the same path element and the same \<open>pathLen\<close>, two states give the same
  hover location for the same pointer event, whatever their other components are. The
  arc length the search returns is that of the first sample at which the squared distance
  is least: no sample is nearer and every earlier sample is strictly farther. A non-null
  hover location is that arc length.
\<close>

theorem C7_scan_deterministic_first_min:
  assumes "pathRef s = Some p" and "pathRef s' = Some p" and "pathLen s = pathLen s'"
  shows "hoverLen (handlePointerMove pr s e) = hoverLen (handlePointerMove pr s' e)
         \<and> (\<exists>k. first_min (dist2_at p (pathLen s) (clientX e - rect_left e)
                            (clientY e - rect_top e)) (Suc samples) k
                \<and> fst (scan p (pathLen s) (clientX e - rect_left e) (clientY e - rect_top e)
                        0 0 PosInf) = sample_len (pathLen s) k
                \<and> (hoverLen (handlePointerMove pr s e) \<noteq> None \<longrightarrow>
                     hoverLen (handlePointerMove pr s e) = Some (sample_len (pathLen s) k)))"
proof -
  let ?x = "clientX e - rect_left e" and ?y = "clientY e - rect_top e"
  obtain k where k: "first_min (dist2_at p (pathLen s) ?x ?y) (Suc samples) k"
    and sc: "scan p (pathLen s) ?x ?y 0 0 PosInf
             = (sample_len (pathLen s) k, Fin (dist2_at p (pathLen s) ?x ?y k))"
    using scan_first_min by blast
  note mv = hover_after_move[OF assms(1) sc dist2_at_nonneg, of pr]
  from sc assms(3) have sc': "scan p (pathLen s') ?x ?y 0 0 PosInf
             = (sample_len (pathLen s) k, Fin (dist2_at p (pathLen s) ?x ?y k))" by simp
  note mv' = hover_after_move[OF assms(2) sc' dist2_at_nonneg, of pr]
  have "hoverLen (handlePointerMove pr s e) = hoverLen (handlePointerMove pr s' e)"
    by (simp add: mv mv')
  moreover have "fst (scan p (pathLen s) ?x ?y 0 0 PosInf) = sample_len (pathLen s) k"
    by (simp add: sc)
  moreover have "hoverLen (handlePointerMove pr s e) \<noteq> None \<longrightarrow>
                     hoverLen (handlePointerMove pr s e) = Some (sample_len (pathLen s) k)"
    by (simp add: mv)
  ultimately show ?thesis using k by blast
qed

text \<open>
  C7 at the mounted state and at the same state with another hover location and the
  playing flag set.
\<close>

theorem C7_first_min_witness:
  "pathRef mounted_state = Some line_path
   \<and> pathRef (mounted_state\<lparr>hoverLen := Some 7, isPlaying := True\<rparr>) = Some line_path
   \<and> pathLen mounted_state = pathLen (mounted_state\<lparr>hoverLen := Some 7, isPlaying := True\<rparr>)
   \<and> hoverLen (handlePointerMove default_props mounted_state (ev_at 180 14))
       = hoverLen (handlePointerMove default_props
                     (mounted_state\<lparr>hoverLen := Some 7, isPlaying := True\<rparr>) (ev_at 180 14))"
proof -
  have p: "pathRef mounted_state = Some line_path" by (rule mounted_state_simps)
  have p': "pathRef (mounted_state\<lparr>hoverLen := Some 7, isPlaying := True\<rparr>) = Some line_path"
    by (simp add: mounted_state_simps)
  have l: "pathLen mounted_state = pathLen (mounted_state\<lparr>hoverLen := Some 7, isPlaying := True\<rparr>)"
    by simp
  from C7_scan_deterministic_first_min[OF p p' l, of default_props "ev_at 180 14"]
  have "hoverLen (handlePointerMove default_props mounted_state (ev_at 180 14))
       = hoverLen (handlePointerMove default_props
                     (mounted_state\<lparr>hoverLen := Some 7, isPlaying := True\<rparr>) (ev_at 180 14))"
    by (rule conjunct1)
  with p p' l show ?thesis by blast
qed

text \<open>
  Claim C8, as amended. The two numbers of the progress dash pattern are the double
  that \<open>progress * pathLen\<close> evaluates to and \<open>pathLen\<close>, each rounded to two decimals
  by \<open>toFixed(2)\<close>: each is a whole number of hundredths (below \<open>10^21\<close>) within 0.005
  of the number it prints, the one farther from 0 of two equally near, and each is the
  number itself when that is a whole number of hundredths. With duration 100 and current
  time 25 the progress is 0.25 and the pattern is the double \<open>0.25 * pathLen\<close> and
  \<open>pathLen\<close>, each rounded to two decimals.
\<close>

theorem C8_redDash_rounded:
  "rounds_to (dash_product s) (fst (redDash s))
   \<and> rounds_to (pathLen s) (snd (redDash s))
   \<and> \<bar>fst (redDash s) - dash_product s\<bar> \<le> 1 / 200
   \<and> \<bar>snd (redDash s) - pathLen s\<bar> \<le> 1 / 200
   \<and> (hundredths (dash_product s) \<longrightarrow> fst (redDash s) = dash_product s)
   \<and> (hundredths (pathLen s) \<longrightarrow> snd (redDash s) = pathLen s)
   \<and> dash_product s = fl (fl (progress s) * pathLen s)
   \<and> (duration s = Fin 100 \<and> current s = 25 \<longrightarrow>
        progress s = 1 / 4
        \<and> redDash s = (toFixed2 (fl ((1 / 4) * pathLen s)), toFixed2 (pathLen s)))"
proof (intro conjI impI)
  show "rounds_to (dash_product s) (fst (redDash s))"
    by (simp add: redDash_def toFixed2_rounds_to)
  show "rounds_to (pathLen s) (snd (redDash s))"
    by (simp add: redDash_def toFixed2_rounds_to)
  show "\<bar>fst (redDash s) - dash_product s\<bar> \<le> 1 / 200"
    using toFixed2_close[of "dash_product s"] by (simp add: redDash_def)
  show "\<bar>snd (redDash s) - pathLen s\<bar> \<le> 1 / 200"
    using toFixed2_close[of "pathLen s"] by (simp add: redDash_def)
  show "dash_product s = fl (fl (progress s) * pathLen s)"
    by (simp add: dash_product_def)
next
  assume "hundredths (dash_product s)"
  then show "fst (redDash s) = dash_product s"
    by (simp add: redDash_def toFixed2_of_hundredths)
next
  assume "hundredths (pathLen s)"
  then show "snd (redDash s) = pathLen s"
    by (simp add: redDash_def toFixed2_of_hundredths)
next
  assume a: "duration s = Fin 100 \<and> current s = 25"
  then show p: "progress s = 1 / 4" by (simp add: progress_def)
  show "redDash s = (toFixed2 (fl ((1 / 4) * pathLen s)), toFixed2 (pathLen s))"
    unfolding redDash_def dash_product_def p fl_quarter by (rule refl)
qed

text \<open>
  C8 at 25 s of 100 s with \<open>pathLen = 1\<close>: both numbers are whole hundredths and the
  pattern is \<open>(0.25, 1)\<close>.
\<close>

theorem C8_redDash_witness:
  "duration (mounted_state\<lparr>duration := Fin 100, current := 25\<rparr>) = Fin 100
   \<and> current (mounted_state\<lparr>duration := Fin 100, current := 25\<rparr>) = 25
   \<and> progress (mounted_state\<lparr>duration := Fin 100, current := 25\<rparr>) = 1 / 4
   \<and> pathLen (mounted_state\<lparr>duration := Fin 100, current := 25\<rparr>) = 1
   \<and> dash_product (mounted_state\<lparr>duration := Fin 100, current := 25\<rparr>) = 1 / 4
   \<and> redDash (mounted_state\<lparr>duration := Fin 100, current := 25\<rparr>) = (1 / 4, 1)"
proof -
  let ?s = "mounted_state\<lparr>duration := Fin 100, current := 25\<rparr>"
  note c8 = C8_redDash_rounded[of ?s]
  have d: "duration ?s = Fin 100 \<and> current ?s = 25" by simp
  have l: "pathLen ?s = 1" by (simp add: mounted_state_simps)
  from c8 d have p: "progress ?s = 1 / 4" by blast
  from c8 have "dash_product ?s = fl (fl (progress ?s) * pathLen ?s)" by blast
  then have dp: "dash_product ?s = 1 / 4" by (simp add: p l fl_quarter)
  have h1: "hundredths (dash_product ?s)"
    unfolding dp hundredths_def by (rule exI[of _ 25]) simp
  have h2: "hundredths (pathLen ?s)"
    unfolding l hundredths_def by (rule exI[of _ 100]) simp
  from c8 h1 have f: "fst (redDash ?s) = 1 / 4" unfolding dp by blast
  from c8 h2 have g: "snd (redDash ?s) = 1" unfolding l by blast
  from f g have "redDash ?s = (1 / 4, 1)" by (simp add: prod_eq_iff)
  with d p l dp show ?thesis by blast
qed

text \<open>
  Claim C8 as stated fails: at 25 s of 100 s with \<open>pathLen = 1242.125\<close> the product is
  the double 310.53125 and the pattern is \<open>(310.53, 1242.13)\<close>, not
  \<open>(310.53125, 1242.125)\<close>.
\<close>

theorem C8_rounding_counterexample:
  "duration quarter_state = Fin 100 \<and> current quarter_state = 25
   \<and> progress quarter_state = 1 / 4
   \<and> progress quarter_state * pathLen quarter_state = 9937 / 32
   \<and> redDash quarter_state = (31053 / 100, 124213 / 100)
   \<and> redDash quarter_state \<noteq> (progress quarter_state * pathLen quarter_state, pathLen quarter_state)"
proof -
  have p: "progress quarter_state = 1 / 4" by (simp add: progress_def quarter_state_simps)
  have dp: "dash_product quarter_state = 9937 / 32"
    by (simp add: dash_product_def p quarter_state_simps fl_quarter fl_9937_32)
  have a: "toFixed2 (9937 / 32) = 31053 / 100"
    by (simp add: toFixed2_def Let_def)
  have b: "toFixed2 (9937 / 8) = 124213 / 100"
    by (simp add: toFixed2_def Let_def)
  have r: "redDash quarter_state = (31053 / 100, 124213 / 100)"
    using a b by (simp add: redDash_def dp quarter_state_simps)
  show ?thesis using p r by (simp add: quarter_state_simps)
qed

text \<open>
  Claim C9, as amended. With a path element mounted, a non-null hover location set by
  pointer-move is \<open>(i / 480) * pathLen\<close> for some \<open>i\<close> from 0 to 480, for the \<open>pathLen\<close>
  the handler ran with; when that \<open>pathLen\<close> is not negative (it is 1 or a measured
  length) the hover location is not negative and at most that \<open>pathLen\<close>. A later
  measurement replaces \<open>pathLen\<close> and keeps the hover location.
\<close>

theorem C9_hover_is_a_sample:
  assumes "pathRef s = Some p" and "hoverLen (handlePointerMove pr s e) = Some h"
  shows "(\<exists>i. i \<le> 480 \<and> h = (real i / 480) * pathLen s)
         \<and> (0 \<le> pathLen s \<longrightarrow> 0 \<le> h \<and> h \<le> pathLen s)
         \<and> hoverLen (measurePathLen (handlePointerMove pr s e)) = Some h"
proof -
  let ?x = "clientX e - rect_left e" and ?y = "clientY e - rect_top e"
  obtain k where k: "first_min (dist2_at p (pathLen s) ?x ?y) (Suc samples) k"
    and sc: "scan p (pathLen s) ?x ?y 0 0 PosInf
             = (sample_len (pathLen s) k, Fin (dist2_at p (pathLen s) ?x ?y k))"
    using scan_first_min by blast
  note mv = hover_after_move[OF assms(1) sc dist2_at_nonneg, of pr]
  from assms(2) have h: "h = sample_len (pathLen s) k"
    by (simp add: mv split: if_splits)
  from k have kle: "k \<le> 480" by (simp add: first_min_def samples_def)
  have eq: "h = (real k / 480) * pathLen s" using h by (simp add: sample_len_def samples_def)
  have rng: "0 \<le> pathLen s \<longrightarrow> 0 \<le> h \<and> h \<le> pathLen s"
  proof
    assume nn: "0 \<le> pathLen s"
    have "real k / 480 \<le> 1" using kle by simp
    then have "(real k / 480) * pathLen s \<le> 1 * pathLen s"
      using nn by (rule mult_right_mono)
    moreover have "0 \<le> (real k / 480) * pathLen s" using nn by simp
    ultimately show "0 \<le> h \<and> h \<le> pathLen s" using eq by simp
  qed
  have keep: "hoverLen (measurePathLen (handlePointerMove pr s e)) = Some h"
    using assms(2) by (simp add: measurePathLen_def split: option.splits)
  from kle eq rng keep show ?thesis by blast
qed

text \<open>
  C9 at the measured state: the move ran with \<open>pathLen = 1242\<close> and set the hover
  location 621.
\<close>

theorem C9_sample_witness:
  "pathRef (measurePathLen mounted_state) = Some line_path
   \<and> pathLen (measurePathLen mounted_state) = 1242
   \<and> hoverLen (handlePointerMove default_props (measurePathLen mounted_state) (ev_at 801 14))
       = Some 621
   \<and> (621::real) = (real 240 / 480) * 1242
   \<and> (0::real) \<le> 621 \<and> (621::real) \<le> 1242
   \<and> hoverLen (measurePathLen
        (handlePointerMove default_props (measurePathLen mounted_state) (ev_at 801 14)))
       = Some 621"
proof -
  let ?s = "measurePathLen mounted_state"
  have p: "pathRef ?s = Some line_path" and l: "pathLen ?s = 1242"
    by (simp_all add: measurePathLen_def mounted_state_simps line_path_def)
  have h: "hoverLen (handlePointerMove default_props ?s (ev_at 801 14)) = Some 621"
    using measured_state_simps(1) by (simp add: measured_state_def)
  from C9_hover_is_a_sample[OF p h] p h l show ?thesis by simp
qed

text \<open>
  Claim C9 as stated fails: after the hover location 621 has been set on the path of
  length 1242, the path changes to one of length 200 and is measured again; the hover
  location is still 621, above \<open>pathLen\<close>.
\<close>

theorem C9_stale_hover_counterexample:
  "hoverLen remeasured_state = Some 621
   \<and> pathLen remeasured_state = 200
   \<and> \<not> (621 \<le> pathLen remeasured_state)"
  by (simp add: remeasured_state_simps)

text \<open>
  Claim C10 fails on the code when the measured length is 0. With size 28 and the
  default stroke width every point of the path is \<open>(14, 14)\<close>; once the length 0 has been
  measured, a pointer-move at that point sets the hover location 0, and pointer-down then
  computes \<open>0 / 0\<close>: the time to assign is \<open>NaN\<close>, for the duration 10 as for a duration
  below 0.01, and the assignment raises \<open>TypeError\<close> instead of assigning a time
  \<open>\<ge> 0\<close>.
\<close>

theorem C10_seek_divides_by_zero:
  "map cmd_point (d_path small_props) = replicate 10 (14, 14)
   \<and> pathLen (measurePathLen collapsed_state) = 0
   \<and> handlePointerMove small_props (measurePathLen collapsed_state) (ev_at 14 14)
       = (measurePathLen collapsed_state)\<lparr>hoverLen := Some 0\<rparr>
   \<and> duration (measurePathLen collapsed_state) = Fin 10
   \<and> seek_time (Fin 10) 0 0 = NaN
   \<and> seek_time (Fin (1 / 200)) 0 0 = NaN
   \<and> seekFromHover ((measurePathLen collapsed_state)\<lparr>hoverLen := Some 0\<rparr>) = Inl TypeError"
proof -
  let ?s = "measurePathLen collapsed_state"
  have l: "pathLen ?s = 0" and p: "pathRef ?s = Some point_path" and d: "duration ?s = Fin 10"
    and v: "videoRef ?s = Some demo_video"
    by (simp_all add: measurePathLen_def collapsed_state_simps point_path_def)
  have "dist2_at point_path 0 14 14 0 = 0"
    by (simp add: dist2_at_def point_path_def)
  then have sc: "scan point_path (pathLen ?s) (clientX (ev_at 14 14) - rect_left (ev_at 14 14))
              (clientY (ev_at 14 14) - rect_top (ev_at 14 14)) 0 0 PosInf = (0, Fin 0)"
    unfolding ev_at_simps l by (rule scan_hit_start)
  have mv: "handlePointerMove small_props ?s (ev_at 14 14) = ?s\<lparr>hoverLen := Some 0\<rparr>"
    using hover_after_move[OF p sc, of small_props] by simp
  have t: "seek_time (Fin 10) 0 0 = NaN" and t': "seek_time (Fin (1 / 200)) 0 0 = NaN"
    by (simp_all add: seek_time_def)
  have sk: "seekFromHover (?s\<lparr>hoverLen := Some 0\<rparr>) = Inl TypeError"
    by (simp add: seekFromHover_def v d l t)
  from d_path_small_props l mv d t t' sk show ?thesis by blast
qed

end
